theory Spec2Isabelle
  imports Complex_Main
begin

section \<open>tn_keras/condenser.py: the DenseCondenser layer\<close>

text \<open>
  The layer object is a record of its attributes, passed to every method and returned as
  the method left it; a trainable variable is represented by the arguments \<open>add_weight\<close>
  was called with; exceptions are values of \<open>py_error\<close>.

  Two things the layer relies on are not its own code and are parameters of the model.
  \<^item> \<open>fpow d n\<close> is the float64 value of \<open>d ** (1. / (n + 1))\<close> for integers that
    convert to a float. The conversions, the division and the C library's \<open>pow\<close> all
    round, and the last digit of \<open>pow\<close> depends on the platform, so no value is fixed
    here.
  \<^item> \<open>keras made w\<close> is what the Keras method \<open>add_weight\<close> does when asked for the
    variable \<open>w\<close> after this call of \<open>build\<close> has already created the variables \<open>made\<close>:
    \<open>None\<close> when it returns the variable, \<open>Some e\<close> when it raises \<open>e\<close> (an
    initializer that rejects the shape, a shape that is too large, no memory).

  \<open>num_nodes\<close> is documented as a positive integer and a dimension of a shape is a
  non-negative integer or \<open>None\<close>, so both are natural numbers here. The keyword
  arguments handed on to the Keras base class are left out.
\<close>

datatype py_error =
  ValueError | IndexError | AttributeError | OverflowError | ExternalError string

record weight =
  name :: string
  shape :: "int list"
  trainable :: bool
  initializer :: string

text \<open>
  The attributes of a layer object. \<open>built\<close> belongs to the Keras base class, whose
  \<open>build\<close> sets it. \<open>leg_dim\<close>, \<open>output_dim\<close> and \<open>bias_var\<close> do not exist before
  \<open>build\<close>: reading \<open>output_dim\<close> while it is \<open>None\<close> here raises AttributeError in
  Python.
\<close>

record layer =
  num_nodes :: nat
  nodes :: "weight list"
  use_bias :: bool
  activation :: "string option"
  kernel_initializer :: string
  bias_initializer :: string
  built :: bool
  leg_dim :: "int option"
  output_dim :: "int option"
  bias_var :: "weight option"

text \<open>
  Python raises OverflowError ("int too large to convert to float") when an integer
  rounds to \<open>2 ** 1024\<close> or more: from \<open>2 ** 1024 - 2 ** 970\<close> on.
\<close>

definition float_ok :: "nat \<Rightarrow> bool" where
  "float_ok x \<longleftrightarrow> x < 2 ^ 1024 - 2 ^ 970"

text \<open>
  Python 3's \<open>round\<close> on a float: the nearest integer, a tie to the even one. It is exact
  on every float.
\<close>

definition py_round :: "real \<Rightarrow> int" where
  "py_round x =
     (let f = \<lfloor>x\<rfloor>; r = x - of_int f
      in if r < 1 / 2 then f else if 1 / 2 < r then f + 1 else if even f then f else f + 1)"

text \<open>The decimal digits of \<open>i\<close>, as \<open>f'{i}'\<close> prints them.\<close>

fun str_nat :: "nat \<Rightarrow> string" where
  "str_nat n =
     (if n < 10 then [char_of (48 + n)]
      else str_nat (n div 10) @ [char_of (48 + n mod 10)])"

text \<open>
  One call of \<open>self.add_weight(name=..., shape=..., trainable=..., initializer=...)\<close>,
  after the variables \<open>made\<close>: the exception Keras raises, or the new variable.
\<close>

definition add_weight ::
  "(weight list \<Rightarrow> weight \<Rightarrow> py_error option) \<Rightarrow> weight list \<Rightarrow>
   string \<Rightarrow> int list \<Rightarrow> bool \<Rightarrow> string \<Rightarrow> py_error + weight" where
  "add_weight keras made nm shp tr ini =
     (let w = \<lparr>name = nm, shape = shp, trainable = tr, initializer = ini\<rparr>
      in case keras made w of Some e \<Rightarrow> Inl e | None \<Rightarrow> Inr w)"

text \<open>
  The loop \<open>for i in range(self.num_nodes): self.nodes.append(self.add_weight(...))\<close>.
  It returns the exception that ended it, if any, the layer, and the variables created so
  far, in the order of their creation.
\<close>

fun build_nodes ::
  "(weight list \<Rightarrow> weight \<Rightarrow> py_error option) \<Rightarrow> layer \<Rightarrow> weight list \<Rightarrow> int \<Rightarrow> nat list \<Rightarrow>
   py_error option \<times> layer \<times> weight list" where
  "build_nodes keras L made ld [] = (None, L, made)"
| "build_nodes keras L made ld (i # is) =
     (case add_weight keras made (''node_'' @ str_nat i) [ld, ld, ld] True (kernel_initializer L) of
        Inl e \<Rightarrow> (Some e, L, made)
      | Inr w \<Rightarrow> build_nodes keras (L\<lparr>nodes := nodes L @ [w]\<rparr>) (made @ [w]) ld is)"

text \<open>
  \<open>build\<close> returns the exception it raised, if any, the layer as the call left it, and
  the variables the call created. \<open>input_shape[-1]\<close> raises IndexError on an empty
  shape. In \<open>round(input_shape[-1] ** (1. / (self.num_nodes + 1)))\<close> the division
  converts \<open>num_nodes + 1\<close> to a float and the power converts \<open>input_shape[-1]\<close>.
\<close>

definition build ::
  "(nat \<Rightarrow> nat \<Rightarrow> real) \<Rightarrow> (weight list \<Rightarrow> weight \<Rightarrow> py_error option) \<Rightarrow>
   layer \<Rightarrow> nat option list \<Rightarrow> py_error option \<times> layer \<times> weight list" where
  "build fpow keras L input_shape =
     (if input_shape = [] then (Some IndexError, L, [])
      else case last input_shape of
        None \<Rightarrow> (Some ValueError, L, [])
      | Some d \<Rightarrow>
         (let L1 = L\<lparr>built := True\<rparr>
          in if \<not> float_ok (num_nodes L1 + 1) \<or> \<not> float_ok d then (Some OverflowError, L1, [])
             else
               (let ld = py_round (fpow d (num_nodes L1));
                    L2 = L1\<lparr>leg_dim := Some ld, output_dim := Some ld\<rparr>
                in case build_nodes keras L2 [] ld [0..<num_nodes L2] of
                     (Some e, L3, made) \<Rightarrow> (Some e, L3, made)
                   | (None, L3, made) \<Rightarrow>
                       if use_bias L3
                       then (case add_weight keras made ''bias'' [ld] True (bias_initializer L3) of
                               Inl e \<Rightarrow> (Some e, L3, made)
                             | Inr w \<Rightarrow> (None, L3\<lparr>bias_var := Some w\<rparr>, made @ [w]))
                       else (None, L3\<lparr>bias_var := None\<rparr>, made))))"

definition compute_output_shape :: "layer \<Rightarrow> nat option list \<Rightarrow> py_error + (nat option \<times> int)" where
  "compute_output_shape L input_shape =
     (case input_shape of
        [] \<Rightarrow> Inl IndexError
      | b # _ \<Rightarrow>
         (case output_dim L of
            None \<Rightarrow> Inl AttributeError
          | Some od \<Rightarrow> Inr (b, od)))"

declare str_nat.simps [simp del]

section \<open>block_tensor: Index objects and the \<open>sparse_shape\<close> property\<close>

text \<open>
  \<open>block_tensor/tutorial.py\<close> only calls the block-sparse tensor library; the modules
  \<open>block_tensor.py\<close> and \<open>index.py\<close> that implement it are not among the sources. What
  follows is written from the specification's description of \<open>Index\<close>,
  \<open>BlockSparseTensor\<close> and \<open>sparse_shape\<close>, over a store of Python objects: an object
  is a cell of the store, a reference is the position of its cell, and creating an object
  appends a cell.
\<close>

type_synonym addr = nat

text \<open>
  Modelled from the spec: the class \<open>Index\<close> of \<open>index.py\<close> (missing), "charges: ordered
  sequence of integers; flow: +1 or -1". The charges are an array object of their own, so
  the field holds a reference to it.
\<close>

record Index =
  charges :: addr
  flow :: int

text \<open>
  Modelled from the spec: the class \<open>BlockSparseTensor\<close> of \<open>block_tensor.py\<close> (missing),
  "indices: SparseShape, data: dense buffer of only the nonzero blocks, dtype". \<open>indices\<close>
  refers to the list object that holds the references to the tensor's Index objects.
\<close>

record 'a BlockSparseTensor =
  indices :: addr
  data :: "'a list"
  dtype :: string

text \<open>
  Modelled from the spec: the objects a tensor's \<open>indices\<close> reach (the library's object
  graph is missing with \<open>block_tensor.py\<close>): charge arrays, Index objects and lists of
  references to Index objects.
\<close>

record heap =
  array_objs :: "int list list"
  index_objs :: "Index list"
  list_objs :: "addr list list"

text \<open>
  Modelled from the spec: the copy of one Index that a "deep copy" of \<open>indices\<close> makes
  (the copying code is missing): a new charge array with the same entries and a new Index
  object that refers to it.
\<close>

definition copy_index :: "heap \<Rightarrow> addr \<Rightarrow> addr \<times> heap" where
  "copy_index h p =
     (let ix = index_objs h ! p;
          a = length (array_objs h);
          h1 = h\<lparr>array_objs := array_objs h @ [array_objs h ! charges ix]\<rparr>;
          q = length (index_objs h1)
      in (q, h1\<lparr>index_objs := index_objs h1 @ [\<lparr>charges = a, flow = flow ix\<rparr>]\<rparr>))"

text \<open>
  Modelled from the spec: the deep copy of a list of Index objects (missing code), one
  \<open>copy_index\<close> per entry, in order.
\<close>

fun copy_indices :: "heap \<Rightarrow> addr list \<Rightarrow> addr list \<times> heap" where
  "copy_indices h [] = ([], h)"
| "copy_indices h (p # ps) =
     (let (q, h1) = copy_index h p; (qs, h2) = copy_indices h1 ps in (q # qs, h2))"

text \<open>
  Modelled from the spec: the property \<open>sparse_shape\<close> of \<open>BlockSparseTensor\<close> (missing),
  "returns a deep copy of the current indices". It returns a new list object holding the
  copies.
\<close>

definition sparse_shape :: "heap \<Rightarrow> 'a BlockSparseTensor \<Rightarrow> addr \<times> heap" where
  "sparse_shape h A =
     (let (qs, h1) = copy_indices h (list_objs h ! indices A)
      in (length (list_objs h1), h1\<lparr>list_objs := list_objs h1 @ [qs]\<rparr>))"

text \<open>
  Modelled from the spec: what an Index object and a sparse shape denote (the accessors are
  missing with \<open>index.py\<close>): the charge sequence and the flow of each leg.
\<close>

definition index_value :: "heap \<Rightarrow> addr \<Rightarrow> int list \<times> int" where
  "index_value h p = (array_objs h ! charges (index_objs h ! p), flow (index_objs h ! p))"

definition shape_value :: "heap \<Rightarrow> addr \<Rightarrow> (int list \<times> int) list" where
  "shape_value h l = map (index_value h) (list_objs h ! l)"

text \<open>
  Modelled from the spec: the property \<open>shape\<close> of \<open>BlockSparseTensor\<close> (missing), "the
  dense per-leg sizes ..., derived" from \<open>indices\<close>.
\<close>

definition tensor_shape :: "heap \<Rightarrow> 'a BlockSparseTensor \<Rightarrow> nat list" where
  "tensor_shape h A =
     map (\<lambda>p. length (array_objs h ! charges (index_objs h ! p))) (list_objs h ! indices A)"

text \<open>
  Modelled from the spec: "mutating an entry of the returned sparse_shape". Through a
  reference \<open>ss\<close> to a list of Index objects a caller can assign an entry
  (\<open>ss[k] = q\<close>), assign an attribute of an entry (\<open>ss[k].flow = v\<close>,
  \<open>ss[k].charges = a\<close>) or write into its charge array (\<open>ss[k].charges[j] = c\<close>). An
  index out of range raises IndexError and changes nothing.
\<close>

datatype mutation = SetItem nat addr | SetFlow nat int | SetCharges nat addr | SetCharge nat nat int

fun mutate :: "heap \<Rightarrow> addr \<Rightarrow> mutation \<Rightarrow> heap" where
  "mutate h l (SetItem k q) =
     (if k < length (list_objs h ! l)
      then h\<lparr>list_objs := (list_objs h)[l := (list_objs h ! l)[k := q]]\<rparr> else h)"
| "mutate h l (SetFlow k v) =
     (if k < length (list_objs h ! l)
      then (let p = list_objs h ! l ! k
            in h\<lparr>index_objs := (index_objs h)[p := (index_objs h ! p)\<lparr>flow := v\<rparr>]\<rparr>)
      else h)"
| "mutate h l (SetCharges k a) =
     (if k < length (list_objs h ! l)
      then (let p = list_objs h ! l ! k
            in h\<lparr>index_objs := (index_objs h)[p := (index_objs h ! p)\<lparr>charges := a\<rparr>]\<rparr>)
      else h)"
| "mutate h l (SetCharge k j c) =
     (if k < length (list_objs h ! l)
      then (let a = charges (index_objs h ! (list_objs h ! l ! k))
            in if j < length (array_objs h ! a)
               then h\<lparr>array_objs := (array_objs h)[a := (array_objs h ! a)[j := c]]\<rparr> else h)
      else h)"

text \<open>
  Modelled from the spec: "the tensor exclusively owns its indices". Every reference the
  tensor holds is to an object of the store (a Python reference never dangles).
\<close>

definition owns :: "heap \<Rightarrow> 'a BlockSparseTensor \<Rightarrow> bool" where
  "owns h A \<longleftrightarrow>
     indices A < length (list_objs h) \<and>
     (\<forall>p \<in> set (list_objs h ! indices A).
        p < length (index_objs h) \<and> charges (index_objs h ! p) < length (array_objs h))"

text \<open>
  Three relations used in the proofs: \<open>grows h h'\<close> says that \<open>h'\<close> keeps every array and
  Index object of \<open>h\<close> and its lists, \<open>valid_refs\<close> that a list of references is to objects
  of the store, and \<open>fresh_copy h h' p q\<close> that \<open>q\<close> is an Index object of \<open>h'\<close> created
  after \<open>h\<close>, with a charge array created after \<open>h\<close>, that denotes what \<open>p\<close> denotes in
  \<open>h\<close>.
\<close>

definition grows :: "heap \<Rightarrow> heap \<Rightarrow> bool" where
  "grows h h' \<longleftrightarrow>
     (\<exists>as. array_objs h' = array_objs h @ as) \<and> (\<exists>is. index_objs h' = index_objs h @ is) \<and>
     list_objs h' = list_objs h"

definition valid_refs :: "heap \<Rightarrow> addr list \<Rightarrow> bool" where
  "valid_refs h ps \<longleftrightarrow>
     (\<forall>p \<in> set ps. p < length (index_objs h) \<and> charges (index_objs h ! p) < length (array_objs h))"

definition fresh_copy :: "heap \<Rightarrow> heap \<Rightarrow> addr \<Rightarrow> addr \<Rightarrow> bool" where
  "fresh_copy h h' p q \<longleftrightarrow>
     length (index_objs h) \<le> q \<and> q < length (index_objs h') \<and>
     length (array_objs h) \<le> charges (index_objs h' ! q) \<and>
     charges (index_objs h' ! q) < length (array_objs h') \<and>
     index_value h' q = index_value h p"


section \<open>Properties of the DenseCondenser layer\<close>

subsection \<open>Floats and the loop over the nodes\<close>

lemma four_half: "(4::real) powr (1 / 2) = 2"
  by (simp add: powr_half_sqrt)

lemma eight_third: "(8::real) powr (1 / 3) = 2"
proof -
  have "(8::real) = 2 powr 3" by simp
  then have "(8::real) powr (1/3) = (2 powr 3) powr (1/3)" by simp
  also have "\<dots> = 2 powr (3 * (1/3))" by (rule powr_powr)
  finally show ?thesis by simp
qed

lemma float_ok_small: "x < 2 ^ 64 \<Longrightarrow> float_ok x"
proof -
  have "(2::nat) ^ 1024 = 2 ^ 970 * 2 ^ 54" by (simp flip: power_add)
  then have "(2::nat) ^ 1024 - 2 ^ 970 = 2 ^ 970 * (2 ^ 54 - 1)"
    by (simp add: right_diff_distrib')
  moreover have "(2::nat) ^ 64 \<le> 2 ^ 970 * (2 ^ 54 - 1)"
  proof -
    have "(2::nat) ^ 64 \<le> 2 ^ 970" by (rule power_increasing) simp_all
    also have "\<dots> \<le> 2 ^ 970 * (2 ^ 54 - 1)" by simp
    finally show ?thesis .
  qed
  ultimately show "x < 2 ^ 64 \<Longrightarrow> float_ok x" by (simp add: float_ok_def)
qed

lemma float_ok_large: "\<not> float_ok (2 ^ 1024)"
  by (simp add: float_ok_def)

lemma build_nodes_all:
  assumes "\<forall>k < length is. keras (made @ take k (map (\<lambda>i. \<lparr>name = ''node_'' @ str_nat i,
      shape = [ld, ld, ld], trainable = True, initializer = kernel_initializer L\<rparr>) is))
      (map (\<lambda>i. \<lparr>name = ''node_'' @ str_nat i, shape = [ld, ld, ld], trainable = True,
         initializer = kernel_initializer L\<rparr>) is ! k) = None"
  shows "build_nodes keras L made ld is =
     (None,
      L\<lparr>nodes := nodes L @ map (\<lambda>i. \<lparr>name = ''node_'' @ str_nat i, shape = [ld, ld, ld],
            trainable = True, initializer = kernel_initializer L\<rparr>) is\<rparr>,
      made @ map (\<lambda>i. \<lparr>name = ''node_'' @ str_nat i, shape = [ld, ld, ld], trainable = True,
            initializer = kernel_initializer L\<rparr>) is)"
  using assms
proof (induction "is" arbitrary: L made)
  case Nil
  then show ?case by simp
next
  case (Cons i "is")
  let ?mk = "\<lambda>i. \<lparr>name = ''node_'' @ str_nat i, shape = [ld, ld, ld], trainable = True,
      initializer = kernel_initializer L\<rparr>"
  from Cons.prems have first: "keras made (?mk i) = None" by fastforce
  have rest: "\<forall>k < length is. keras ((made @ [?mk i]) @ take k (map ?mk is)) (map ?mk is ! k) = None"
  proof (intro allI impI)
    fix k assume "k < length is"
    then have "Suc k < length (i # is)" by simp
    with Cons.prems show "keras ((made @ [?mk i]) @ take k (map ?mk is)) (map ?mk is ! k) = None"
      by fastforce
  qed
  show ?case
    using Cons.IH[where L = "L\<lparr>nodes := nodes L @ [?mk i]\<rparr>" and made = "made @ [?mk i]"] rest first
    by (simp add: add_weight_def)
qed

lemma build_nodes_first_failure:
  assumes "k < length is"
    and "keras (made @ take k (map (\<lambda>i. \<lparr>name = ''node_'' @ str_nat i,
      shape = [ld, ld, ld], trainable = True, initializer = kernel_initializer L\<rparr>) is))
      (map (\<lambda>i. \<lparr>name = ''node_'' @ str_nat i, shape = [ld, ld, ld], trainable = True,
         initializer = kernel_initializer L\<rparr>) is ! k) = Some e"
    and "\<forall>j < k. keras (made @ take j (map (\<lambda>i. \<lparr>name = ''node_'' @ str_nat i,
      shape = [ld, ld, ld], trainable = True, initializer = kernel_initializer L\<rparr>) is))
      (map (\<lambda>i. \<lparr>name = ''node_'' @ str_nat i, shape = [ld, ld, ld], trainable = True,
         initializer = kernel_initializer L\<rparr>) is ! j) = None"
  shows "build_nodes keras L made ld is =
     (Some e,
      L\<lparr>nodes := nodes L @ take k (map (\<lambda>i. \<lparr>name = ''node_'' @ str_nat i, shape = [ld, ld, ld],
            trainable = True, initializer = kernel_initializer L\<rparr>) is)\<rparr>,
      made @ take k (map (\<lambda>i. \<lparr>name = ''node_'' @ str_nat i, shape = [ld, ld, ld],
            trainable = True, initializer = kernel_initializer L\<rparr>) is))"
  using assms
proof (induction "is" arbitrary: L made k)
  case Nil
  then show ?case by simp
next
  case (Cons i "is")
  let ?mk = "\<lambda>i. \<lparr>name = ''node_'' @ str_nat i, shape = [ld, ld, ld], trainable = True,
      initializer = kernel_initializer L\<rparr>"
  show ?case
  proof (cases k)
    case 0
    with Cons.prems(2) have "keras made (?mk i) = Some e" by simp
    then show ?thesis using 0 by (simp add: add_weight_def)
  next
    case (Suc k')
    from Cons.prems(3) Suc have first: "keras made (?mk i) = None" by fastforce
    have lt: "k' < length is" using Cons.prems(1) Suc by simp
    have fail: "keras ((made @ [?mk i]) @ take k' (map ?mk is)) (map ?mk is ! k') = Some e"
      using Cons.prems(2) Suc by simp
    have before: "\<forall>j < k'. keras ((made @ [?mk i]) @ take j (map ?mk is)) (map ?mk is ! j) = None"
    proof (intro allI impI)
      fix j assume "j < k'"
      then have "Suc j < k" using Suc by simp
      with Cons.prems(3) show "keras ((made @ [?mk i]) @ take j (map ?mk is)) (map ?mk is ! j) = None"
        by fastforce
    qed
    show ?thesis
      using Cons.IH[where k = k' and L = "L\<lparr>nodes := nodes L @ [?mk i]\<rparr>" and made = "made @ [?mk i]"] lt fail before first Suc
      by (simp add: add_weight_def)
  qed
qed

lemma build_nodes_succeeds:
  assumes "ws = map (\<lambda>i. \<lparr>name = ''node_'' @ str_nat i, shape = [ld, ld, ld],
      trainable = True, initializer = kernel_initializer L\<rparr>) is"
    and "\<forall>k < length ws. keras (made @ take k ws) (ws ! k) = None"
  shows "build_nodes keras L made ld is = (None, L\<lparr>nodes := nodes L @ ws\<rparr>, made @ ws)"
  using build_nodes_all[of "is" keras made ld L] assms by simp

lemma build_nodes_fails:
  assumes "ws = map (\<lambda>i. \<lparr>name = ''node_'' @ str_nat i, shape = [ld, ld, ld],
      trainable = True, initializer = kernel_initializer L\<rparr>) is"
    and "k < length ws" and "keras (made @ take k ws) (ws ! k) = Some e"
    and "\<forall>j < k. keras (made @ take j ws) (ws ! j) = None"
  shows "build_nodes keras L made ld is =
     (Some e, L\<lparr>nodes := nodes L @ take k ws\<rparr>, made @ take k ws)"
  using build_nodes_first_failure[of k "is" keras made ld L e] assms by simp

subsection \<open>\<open>build\<close> and \<open>compute_output_shape\<close>\<close>

lemma build_floats:
  assumes "input_shape \<noteq> []" "last input_shape = Some d" "float_ok (num_nodes L + 1)" "float_ok d"
  shows "build fpow keras L input_shape =
     (case build_nodes keras
             (L\<lparr>built := True, leg_dim := Some (py_round (fpow d (num_nodes L))),
                output_dim := Some (py_round (fpow d (num_nodes L)))\<rparr>)
             [] (py_round (fpow d (num_nodes L))) [0..<num_nodes L] of
        (Some e, L3, made) \<Rightarrow> (Some e, L3, made)
      | (None, L3, made) \<Rightarrow>
          if use_bias L3
          then (case add_weight keras made ''bias'' [py_round (fpow d (num_nodes L))] True
                       (bias_initializer L3) of
                  Inl e \<Rightarrow> (Some e, L3, made)
                | Inr w \<Rightarrow> (None, L3\<lparr>bias_var := Some w\<rparr>, made @ [w]))
          else (None, L3\<lparr>bias_var := None\<rparr>, made))"
  using assms by (simp add: build_def Let_def)

lemma build_overflow:
  assumes "input_shape \<noteq> []" "last input_shape = Some d"
    "\<not> float_ok (num_nodes L + 1) \<or> \<not> float_ok d"
  shows "build fpow keras L input_shape = (Some OverflowError, L\<lparr>built := True\<rparr>, [])"
  using assms by (auto simp add: build_def Let_def)

text \<open>
  Claim C10, as the code has it. \<open>build\<close> raises ValueError and creates no weight (it
  leaves the layer as it was) whenever the last dimension of \<open>input_shape\<close> is \<open>None\<close>.
  When the last dimension is a defined integer \<open>d\<close>:
  \<^item> if \<open>num_nodes + 1\<close> or \<open>d\<close> is too large to convert to a float, \<open>build\<close> raises
    OverflowError, after the base class has marked the layer built, and creates no weight;
  \<^item> otherwise it asks for the kernel weights \<open>node_0, ..., node_{num_nodes-1}\<close> and then,
    exactly when \<open>use_bias\<close> is true, for the bias. If none of these calls of
    \<open>add_weight\<close> raises, \<open>build\<close> raises nothing and has created exactly these
    \<open>num_nodes\<close> kernel weights, appended to \<open>nodes\<close>, and the bias if \<open>use_bias\<close>;
  \<^item> if the \<open>k\<close>-th call is the first to raise, \<open>build\<close> raises its exception and has
    created the \<open>k\<close> weights before it.
\<close>

theorem build_creates_weights:
  assumes "input_shape \<noteq> []"
  shows "case last input_shape of
           None \<Rightarrow> build fpow keras L input_shape = (Some ValueError, L, [])
         | Some d \<Rightarrow>
            if \<not> float_ok (num_nodes L + 1) \<or> \<not> float_ok d
            then build fpow keras L input_shape = (Some OverflowError, L\<lparr>built := True\<rparr>, [])
            else
              (let ld = py_round (fpow d (num_nodes L));
                   ks = map (\<lambda>i. \<lparr>name = ''node_'' @ str_nat i, shape = [ld, ld, ld],
                                   trainable = True, initializer = kernel_initializer L\<rparr>)
                          [0..<num_nodes L];
                   b = \<lparr>name = ''bias'', shape = [ld], trainable = True,
                        initializer = bias_initializer L\<rparr>;
                   bs = (if use_bias L then [b] else []);
                   all = ks @ bs;
                   L2 = L\<lparr>built := True, leg_dim := Some ld, output_dim := Some ld\<rparr>
               in length ks = num_nodes L \<and>
                  ((\<forall>k < length all. keras (take k all) (all ! k) = None) \<longrightarrow>
                     build fpow keras L input_shape =
                       (None,
                        L2\<lparr>nodes := nodes L @ ks,
                           bias_var := (if use_bias L then Some b else None)\<rparr>,
                        all)) \<and>
                  (\<forall>k e. k < length all \<and> keras (take k all) (all ! k) = Some e \<and>
                         (\<forall>j < k. keras (take j all) (all ! j) = None) \<longrightarrow>
                     build fpow keras L input_shape =
                       (Some e, L2\<lparr>nodes := nodes L @ take k ks\<rparr>, take k all)))"
proof (cases "last input_shape")
  case None
  then show ?thesis using assms by (simp add: build_def)
next
  case (Some d)
  show ?thesis
  proof (cases "\<not> float_ok (num_nodes L + 1) \<or> \<not> float_ok d")
    case True
    then show ?thesis using build_overflow[OF assms Some True] Some by simp
  next
    case False
    then have ok: "float_ok (num_nodes L + 1)" "float_ok d" by simp_all
    define ld where "ld = py_round (fpow d (num_nodes L))"
    define ks where "ks = map (\<lambda>i. \<lparr>name = ''node_'' @ str_nat i, shape = [ld, ld, ld],
        trainable = True, initializer = kernel_initializer L\<rparr>) [0..<num_nodes L]"
    define b where "b = \<lparr>name = ''bias'', shape = [ld], trainable = True,
        initializer = bias_initializer L\<rparr>"
    define bs where "bs = (if use_bias L then [b] else [])"
    define all where "all = ks @ bs"
    define L2 where "L2 = L\<lparr>built := True, leg_dim := Some ld, output_dim := Some ld\<rparr>"
    have len: "length ks = num_nodes L" by (simp add: ks_def)
    have ki: "kernel_initializer L2 = kernel_initializer L" by (simp add: L2_def)
    have ks2: "ks = map (\<lambda>i. \<lparr>name = ''node_'' @ str_nat i, shape = [ld, ld, ld],
        trainable = True, initializer = kernel_initializer L2\<rparr>) [0..<num_nodes L]"
      by (simp add: ks_def ki)
    have unfolded: "build fpow keras L input_shape =
       (case build_nodes keras L2 [] ld [0..<num_nodes L] of
          (Some e, L3, made) \<Rightarrow> (Some e, L3, made)
        | (None, L3, made) \<Rightarrow>
            if use_bias L3
            then (case add_weight keras made ''bias'' [ld] True (bias_initializer L3) of
                    Inl e \<Rightarrow> (Some e, L3, made)
                  | Inr w \<Rightarrow> (None, L3\<lparr>bias_var := Some w\<rparr>, made @ [w]))
            else (None, L3\<lparr>bias_var := None\<rparr>, made))"
      unfolding ld_def L2_def by (rule build_floats[OF assms Some ok])
    have loop_ok: "build_nodes keras L2 [] ld [0..<num_nodes L] = (None, L2\<lparr>nodes := nodes L2 @ ks\<rparr>, ks)"
      if "\<forall>k < length ks. keras (take k ks) (ks ! k) = None"
      using build_nodes_succeeds[OF ks2, of keras "[]"] that by simp
    have success: "build fpow keras L input_shape =
        (None, L2\<lparr>nodes := nodes L @ ks, bias_var := (if use_bias L then Some b else None)\<rparr>, all)"
      if all_ok: "\<forall>k < length all. keras (take k all) (all ! k) = None"
    proof -
      have "keras (take k ks) (ks ! k) = None" if "k < length ks" for k
        using all_ok[rule_format, of k] that by (simp add: all_def nth_append)
      then have loop: "build_nodes keras L2 [] ld [0..<num_nodes L] = (None, L2\<lparr>nodes := nodes L2 @ ks\<rparr>, ks)"
        using loop_ok by simp
      show ?thesis
      proof (cases "use_bias L")
        case True
        then have "keras ks b = None"
          using all_ok[rule_format, of "length ks"] by (simp add: all_def bs_def)
        then show ?thesis using True
          by (simp only: unfolded loop) (simp add: add_weight_def L2_def all_def bs_def b_def)
      next
        case False
        then show ?thesis
          by (simp only: unfolded loop) (simp add: L2_def all_def bs_def)
      qed
    qed
    have failure: "build fpow keras L input_shape = (Some e, L2\<lparr>nodes := nodes L @ take k ks\<rparr>, take k all)"
      if k: "k < length all" and bad: "keras (take k all) (all ! k) = Some e"
        and good: "\<forall>j < k. keras (take j all) (all ! j) = None" for k e
    proof (cases "k < length ks")
      case True
      have bad': "keras (take k ks) (ks ! k) = Some e"
        using bad True by (simp add: all_def nth_append)
      have good': "\<forall>j < k. keras (take j ks) (ks ! j) = None"
        using good True by (simp add: all_def nth_append)
      have "build_nodes keras L2 [] ld [0..<num_nodes L] =
          (Some e, L2\<lparr>nodes := nodes L2 @ take k ks\<rparr>, take k ks)"
        using build_nodes_fails[OF ks2 True, of keras "[]" e] bad' good' by simp
      then show ?thesis using True
        by (simp only: unfolded) (simp add: L2_def all_def)
    next
      case False
      with k have kb: "k = length ks" and ub: "use_bias L"
        by (auto simp: all_def bs_def split: if_splits)
      have "\<forall>j < length ks. keras (take j ks) (ks ! j) = None"
        using good kb by (simp add: all_def nth_append)
      then have loop: "build_nodes keras L2 [] ld [0..<num_nodes L] = (None, L2\<lparr>nodes := nodes L2 @ ks\<rparr>, ks)"
        using loop_ok by simp
      have "keras ks b = Some e" using bad kb ub by (simp add: all_def bs_def)
      then show ?thesis using ub kb
        by (simp only: unfolded loop) (simp add: add_weight_def L2_def all_def b_def bs_def)
    qed
    have summary: "length ks = num_nodes L \<and>
        ((\<forall>k < length all. keras (take k all) (all ! k) = None) \<longrightarrow>
           build fpow keras L input_shape =
             (None, L2\<lparr>nodes := nodes L @ ks, bias_var := (if use_bias L then Some b else None)\<rparr>, all)) \<and>
        (\<forall>k e. k < length all \<and> keras (take k all) (all ! k) = Some e \<and>
               (\<forall>j < k. keras (take j all) (all ! j) = None) \<longrightarrow>
           build fpow keras L input_shape = (Some e, L2\<lparr>nodes := nodes L @ take k ks\<rparr>, take k all))"
      using len success failure by blast
    show ?thesis
      using summary
      unfolding Some option.case if_not_P[OF False] Let_def ld_def ks_def b_def bs_def all_def L2_def
      by (rule iffD1[OF refl])
  qed
qed

text \<open>
  The theorem at a layer with two nodes: an undefined last dimension; the last dimension 8
  with a bias, where the three weights have the shapes \<open>(2,2,2)\<close>, \<open>(2,2,2)\<close> and
  \<open>(2)\<close>; and the last dimension 8 when the second call of \<open>add_weight\<close> raises.
\<close>

theorem build_creates_weights_witness:
  "build (\<lambda>d n. real d powr (1 / real (n + 1))) (\<lambda>made w. None)
     \<lparr>num_nodes = 2, nodes = [], use_bias = True, activation = None,
      kernel_initializer = ''glorot_uniform'', bias_initializer = ''zeros'', built = False,
      leg_dim = None, output_dim = None, bias_var = None\<rparr> [None, None] =
     (Some ValueError,
      \<lparr>num_nodes = 2, nodes = [], use_bias = True, activation = None,
       kernel_initializer = ''glorot_uniform'', bias_initializer = ''zeros'', built = False,
       leg_dim = None, output_dim = None, bias_var = None\<rparr>, []) \<and>
   fst (build (\<lambda>d n. real d powr (1 / real (n + 1))) (\<lambda>made w. None)
     \<lparr>num_nodes = 2, nodes = [], use_bias = True, activation = None,
      kernel_initializer = ''glorot_uniform'', bias_initializer = ''zeros'', built = False,
      leg_dim = None, output_dim = None, bias_var = None\<rparr> [None, Some 8]) = None \<and>
   map shape (snd (snd (build (\<lambda>d n. real d powr (1 / real (n + 1))) (\<lambda>made w. None)
     \<lparr>num_nodes = 2, nodes = [], use_bias = True, activation = None,
      kernel_initializer = ''glorot_uniform'', bias_initializer = ''zeros'', built = False,
      leg_dim = None, output_dim = None, bias_var = None\<rparr> [None, Some 8]))) =
     [[2, 2, 2], [2, 2, 2], [2]] \<and>
   build (\<lambda>d n. real d powr (1 / real (n + 1)))
     (\<lambda>made w. if length made = 1 then Some (ExternalError ''ResourceExhaustedError'') else None)
     \<lparr>num_nodes = 2, nodes = [], use_bias = False, activation = None,
      kernel_initializer = ''glorot_uniform'', bias_initializer = ''zeros'', built = False,
      leg_dim = None, output_dim = None, bias_var = None\<rparr> [None, Some 8] =
     (Some (ExternalError ''ResourceExhaustedError''),
      \<lparr>num_nodes = 2,
       nodes = [\<lparr>name = ''node_0'', shape = [2, 2, 2], trainable = True,
                 initializer = ''glorot_uniform''\<rparr>],
       use_bias = False, activation = None,
       kernel_initializer = ''glorot_uniform'', bias_initializer = ''zeros'', built = True,
       leg_dim = Some 2, output_dim = Some 2, bias_var = None\<rparr>,
      [\<lparr>name = ''node_0'', shape = [2, 2, 2], trainable = True,
        initializer = ''glorot_uniform''\<rparr>])"
proof -
  let ?fpow = "\<lambda>d n. real d powr (1 / real (n + 1))"
  let ?L = "\<lparr>num_nodes = 2, nodes = [], use_bias = True, activation = None,
      kernel_initializer = ''glorot_uniform'', bias_initializer = ''zeros'', built = False,
      leg_dim = None, output_dim = None, bias_var = None\<rparr>"
  let ?M = "\<lparr>num_nodes = 2, nodes = [], use_bias = False, activation = None,
      kernel_initializer = ''glorot_uniform'', bias_initializer = ''zeros'', built = False,
      leg_dim = None, output_dim = None, bias_var = None\<rparr>"
  let ?bad = "\<lambda>made w. if length made = 1 then Some (ExternalError ''ResourceExhaustedError'') else None"
  have ok: "float_ok 3" "float_ok 8" by (simp_all add: float_ok_small)
  have ld: "py_round 2 = 2" by (simp add: py_round_def)
  have upt2: "[0..<2] = [0, 1]" by (simp add: upt_rec)
  have name0: "str_nat 0 = ''0''" by code_simp
  have "str_nat 1 = ''1''" by code_simp
  then have name1: "str_nat (Suc 0) = ''1''" by simp
  note names = name0 name1
  have none: "build ?fpow (\<lambda>made w. None) ?L [None, None] = (Some ValueError, ?L, [])"
    using build_creates_weights [of "[None, None]" ?fpow "\<lambda>made w. None" ?L] by simp
  have good: "build ?fpow (\<lambda>made w. None) ?L [None, Some 8] =
      (None,
       ?L\<lparr>built := True, leg_dim := Some 2, output_dim := Some 2,
          nodes := [\<lparr>name = ''node_0'', shape = [2, 2, 2], trainable = True, initializer = ''glorot_uniform''\<rparr>,
                    \<lparr>name = ''node_1'', shape = [2, 2, 2], trainable = True, initializer = ''glorot_uniform''\<rparr>],
          bias_var := Some \<lparr>name = ''bias'', shape = [2], trainable = True, initializer = ''zeros''\<rparr>\<rparr>,
       [\<lparr>name = ''node_0'', shape = [2, 2, 2], trainable = True, initializer = ''glorot_uniform''\<rparr>,
        \<lparr>name = ''node_1'', shape = [2, 2, 2], trainable = True, initializer = ''glorot_uniform''\<rparr>,
        \<lparr>name = ''bias'', shape = [2], trainable = True, initializer = ''zeros''\<rparr>])"
    using build_creates_weights [of "[None, Some 8]" ?fpow "\<lambda>made w. None" ?L] ok
    by (simp add: Let_def eight_third ld upt2 names)
  have fails: "build ?fpow ?bad ?M [None, Some 8] =
      (Some (ExternalError ''ResourceExhaustedError''),
       ?M\<lparr>built := True, leg_dim := Some 2, output_dim := Some 2,
          nodes := [\<lparr>name = ''node_0'', shape = [2, 2, 2], trainable = True, initializer = ''glorot_uniform''\<rparr>]\<rparr>,
       [\<lparr>name = ''node_0'', shape = [2, 2, 2], trainable = True, initializer = ''glorot_uniform''\<rparr>])"
  proof -
    from build_creates_weights [of "[None, Some 8]" ?fpow ?bad ?M] ok
    have "\<forall>k e. k < 2 \<and>
        ?bad (take k [\<lparr>name = ''node_0'', shape = [2, 2, 2], trainable = True, initializer = ''glorot_uniform''\<rparr>,
                      \<lparr>name = ''node_1'', shape = [2, 2, 2], trainable = True, initializer = ''glorot_uniform''\<rparr>])
             ([\<lparr>name = ''node_0'', shape = [2, 2, 2], trainable = True, initializer = ''glorot_uniform''\<rparr>,
               \<lparr>name = ''node_1'', shape = [2, 2, 2], trainable = True, initializer = ''glorot_uniform''\<rparr>] ! k) = Some e \<and>
        (\<forall>j < k. ?bad (take j [\<lparr>name = ''node_0'', shape = [2, 2, 2], trainable = True, initializer = ''glorot_uniform''\<rparr>,
                      \<lparr>name = ''node_1'', shape = [2, 2, 2], trainable = True, initializer = ''glorot_uniform''\<rparr>])
             ([\<lparr>name = ''node_0'', shape = [2, 2, 2], trainable = True, initializer = ''glorot_uniform''\<rparr>,
               \<lparr>name = ''node_1'', shape = [2, 2, 2], trainable = True, initializer = ''glorot_uniform''\<rparr>] ! j) = None) \<longrightarrow>
        build ?fpow ?bad ?M [None, Some 8] =
          (Some e,
           ?M\<lparr>built := True, leg_dim := Some 2, output_dim := Some 2,
              nodes := take k [\<lparr>name = ''node_0'', shape = [2, 2, 2], trainable = True, initializer = ''glorot_uniform''\<rparr>,
                      \<lparr>name = ''node_1'', shape = [2, 2, 2], trainable = True, initializer = ''glorot_uniform''\<rparr>]\<rparr>,
           take k [\<lparr>name = ''node_0'', shape = [2, 2, 2], trainable = True, initializer = ''glorot_uniform''\<rparr>,
                   \<lparr>name = ''node_1'', shape = [2, 2, 2], trainable = True, initializer = ''glorot_uniform''\<rparr>])"
      by (simp add: Let_def eight_third ld upt2 names)
    from this[rule_format, of 1 "ExternalError ''ResourceExhaustedError''"]
    show ?thesis by simp
  qed
  from none good fails show ?thesis by simp
qed

text \<open>
  Claim C10 as stated (\<open>build\<close> succeeds for every defined last dimension) fails: for the
  last dimension \<open>2 ** 1024\<close> the power in \<open>build\<close> raises OverflowError, whatever
  \<open>pow\<close> and \<open>add_weight\<close> do, and no weight is created.
\<close>

theorem build_overflow_counterexample:
  "build (\<lambda>d n. real d powr (1 / real (n + 1))) (\<lambda>made w. None)
     \<lparr>num_nodes = 1, nodes = [], use_bias = True, activation = None,
      kernel_initializer = ''glorot_uniform'', bias_initializer = ''zeros'', built = False,
      leg_dim = None, output_dim = None, bias_var = None\<rparr> [Some 32, Some (2 ^ 1024)] =
     (Some OverflowError,
      \<lparr>num_nodes = 1, nodes = [], use_bias = True, activation = None,
       kernel_initializer = ''glorot_uniform'', bias_initializer = ''zeros'', built = True,
       leg_dim = None, output_dim = None, bias_var = None\<rparr>, [])"
  using build_overflow [of "[Some 32, Some (2 ^ 1024)]" "2 ^ 1024"
      "\<lparr>num_nodes = 1, nodes = [], use_bias = True, activation = None,
        kernel_initializer = ''glorot_uniform'', bias_initializer = ''zeros'', built = False,
        leg_dim = None, output_dim = None, bias_var = None\<rparr>"
      "\<lambda>d n. real d powr (1 / real (n + 1))" "\<lambda>made w. None"]
    float_ok_large
  by simp

text \<open>
  Claim C1 at one node and an input of shape \<open>(32, 4)\<close>. The class docstring gives the
  output shape \<open>(batch_size, input_shape[-1] ** (num_nodes + 1))\<close>, here \<open>(32, 16)\<close>, and
  the claim a last dimension larger than 4. On a platform where \<open>4 ** 0.5\<close> is \<open>2.0\<close> and
  for a Keras that creates the variables, \<open>build\<close> creates a kernel of shape \<open>(2,2,2)\<close>
  and a bias of shape \<open>(2)\<close>, and \<open>compute_output_shape\<close> reports \<open>(32, 2)\<close>.
\<close>

theorem output_dim_at_32_4:
  assumes "fpow 4 1 = 2" and "\<forall>made w. keras made w = None"
  shows "let r = build fpow keras
             \<lparr>num_nodes = 1, nodes = [], use_bias = True, activation = None,
              kernel_initializer = ''glorot_uniform'', bias_initializer = ''zeros'',
              built = False, leg_dim = None, output_dim = None, bias_var = None\<rparr>
             [Some 32, Some 4]
         in fst r = None \<and>
            map shape (snd (snd r)) = [[2, 2, 2], [2]] \<and>
            compute_output_shape (fst (snd r)) [Some 32, Some 4] = Inr (Some 32, 2) \<and>
            \<not> (4 :: int) < 2 \<and> (2 :: int) \<noteq> 4 ^ (1 + 1)"
proof -
  have ok: "float_ok (Suc (Suc 0))" "float_ok 4" by (simp_all add: float_ok_small)
  have ld: "py_round 2 = 2" by (simp add: py_round_def)
  have upt1: "[0..<1] = [0]" by (simp add: upt_rec)
  show ?thesis
    using assms ok
    by (simp add: build_def Let_def add_weight_def ld upt1 compute_output_shape_def)
qed

text \<open>The theorem with the exact power for \<open>pow\<close> and a Keras that never raises.\<close>

theorem output_dim_at_32_4_witness:
  "real 4 powr (1 / real (1 + 1)) = 2 \<and>
   compute_output_shape
     (fst (snd (build (\<lambda>d n. real d powr (1 / real (n + 1))) (\<lambda>made w. None)
        \<lparr>num_nodes = 1, nodes = [], use_bias = True, activation = None,
         kernel_initializer = ''glorot_uniform'', bias_initializer = ''zeros'',
         built = False, leg_dim = None, output_dim = None, bias_var = None\<rparr>
        [Some 32, Some 4])))
     [Some 32, Some 4] = Inr (Some 32, 2)"
proof -
  have p: "real 4 powr (1 / real (1 + 1)) = 2" by (simp add: four_half)
  from output_dim_at_32_4 [of "\<lambda>d n. real d powr (1 / real (n + 1))" "\<lambda>made w. None"] p
  show ?thesis by (simp add: Let_def)
qed

section \<open>Properties of \<open>sparse_shape\<close>\<close>

lemma grows_refl: "grows h h"
  by (simp add: grows_def)

lemma grows_trans: "grows h h1 \<Longrightarrow> grows h1 h2 \<Longrightarrow> grows h h2"
  by (auto simp: grows_def)

lemma grows_copy_index: "copy_index h p = (q, h1) \<Longrightarrow> grows h h1"
  by (auto simp: copy_index_def Let_def grows_def)

lemma grows_index: "grows h h' \<Longrightarrow> p < length (index_objs h) \<Longrightarrow> index_objs h' ! p = index_objs h ! p"
  by (auto simp: grows_def nth_append)

lemma grows_array: "grows h h' \<Longrightarrow> a < length (array_objs h) \<Longrightarrow> array_objs h' ! a = array_objs h ! a"
  by (auto simp: grows_def nth_append)

lemma grows_lengths:
  "grows h h' \<Longrightarrow> length (array_objs h) \<le> length (array_objs h') \<and> length (index_objs h) \<le> length (index_objs h')"
  by (auto simp: grows_def)

lemma copy_index_fresh:
  assumes "copy_index h p = (q, h1)" "p < length (index_objs h)"
    "charges (index_objs h ! p) < length (array_objs h)"
  shows "fresh_copy h h1 p q"
  using assms by (auto simp: copy_index_def Let_def fresh_copy_def index_value_def nth_append)

lemma grows_index_value:
  assumes "grows h h'" "p < length (index_objs h)" "charges (index_objs h ! p) < length (array_objs h)"
  shows "index_value h' p = index_value h p"
  using assms by (simp add: index_value_def grows_index grows_array)

lemma valid_refs_grows: "grows h h' \<Longrightarrow> valid_refs h ps \<Longrightarrow> valid_refs h' ps"
  using grows_lengths[of h h'] by (fastforce simp: valid_refs_def grows_index)

lemma fresh_copy_later:
  assumes "fresh_copy h h1 p q" "grows h1 h2"
  shows "fresh_copy h h2 p q"
proof -
  from assms(1) have q: "q < length (index_objs h1)"
    and a: "charges (index_objs h1 ! q) < length (array_objs h1)"
    by (simp_all add: fresh_copy_def)
  have "index_objs h2 ! q = index_objs h1 ! q" using grows_index[OF assms(2) q] .
  moreover have "index_value h2 q = index_value h1 q"
    using grows_index_value[OF assms(2) q a] .
  ultimately show ?thesis
    using assms(1) grows_lengths[OF assms(2)] by (simp add: fresh_copy_def)
qed

lemma fresh_copy_earlier:
  assumes "fresh_copy h1 h2 p q" "grows h h1" "p < length (index_objs h)"
    "charges (index_objs h ! p) < length (array_objs h)"
  shows "fresh_copy h h2 p q"
  using assms grows_lengths[OF assms(2)] grows_index_value[OF assms(2-4)]
  by (simp add: fresh_copy_def)

lemma copy_indices_fresh:
  assumes "copy_indices h ps = (qs, h2)" "valid_refs h ps"
  shows "grows h h2 \<and> length qs = length ps \<and> (\<forall>k < length ps. fresh_copy h h2 (ps ! k) (qs ! k))"
  using assms
proof (induction ps arbitrary: h qs h2)
  case Nil
  then show ?case by (simp add: grows_refl)
next
  case (Cons p ps)
  obtain q h1 where c1: "copy_index h p = (q, h1)" by (cases "copy_index h p")
  obtain qs' h2' where c2: "copy_indices h1 ps = (qs', h2')" by (cases "copy_indices h1 ps")
  from Cons.prems(1) c1 c2 have eq: "qs = q # qs'" "h2 = h2'" by simp_all
  have vp: "p < length (index_objs h)" "charges (index_objs h ! p) < length (array_objs h)"
    and vps: "valid_refs h ps"
    using Cons.prems(2) by (simp_all add: valid_refs_def)
  have g1: "grows h h1" using grows_copy_index[OF c1] .
  have f1: "fresh_copy h h1 p q" using copy_index_fresh[OF c1 vp] .
  have ih: "grows h1 h2' \<and> length qs' = length ps \<and>
            (\<forall>k < length ps. fresh_copy h1 h2' (ps ! k) (qs' ! k))"
    using Cons.IH[OF c2 valid_refs_grows[OF g1 vps]] .
  have "fresh_copy h h2' ((p # ps) ! k) ((q # qs') ! k)" if "k < length (p # ps)" for k
  proof (cases k)
    case 0
    then show ?thesis using fresh_copy_later[OF f1] ih by simp
  next
    case (Suc j)
    then have j: "j < length ps" using that by simp
    then have "ps ! j \<in> set ps" by simp
    then have v: "ps ! j < length (index_objs h)"
      "charges (index_objs h ! (ps ! j)) < length (array_objs h)"
      using vps by (simp_all add: valid_refs_def)
    from ih j have "fresh_copy h1 h2' (ps ! j) (qs' ! j)" by simp
    from fresh_copy_earlier[OF this g1 v] show ?thesis using Suc by simp
  qed
  then show ?case using ih g1 eq grows_trans by auto
qed

lemma mutate_arrays_frame:
  "a < n \<Longrightarrow> \<forall>k < length (list_objs h ! l). n \<le> charges (index_objs h ! (list_objs h ! l ! k)) \<Longrightarrow>
   array_objs (mutate h l m) ! a = array_objs h ! a"
  by (cases m) (auto simp: Let_def)

lemma mutate_index_frame:
  "p < n \<Longrightarrow> \<forall>k < length (list_objs h ! l). n \<le> list_objs h ! l ! k \<Longrightarrow>
   index_objs (mutate h l m) ! p = index_objs h ! p"
  by (cases m) (auto simp: Let_def)

lemma mutate_lists_frame: "l' \<noteq> l \<Longrightarrow> list_objs (mutate h l m) ! l' = list_objs h ! l'"
  by (cases m) (auto simp: Let_def)


lemma shape_value_frame:
  assumes "owns h A"
    and "list_objs h'' ! indices A = list_objs h ! indices A"
    and "\<forall>p < length (index_objs h). index_objs h'' ! p = index_objs h ! p"
    and "\<forall>a < length (array_objs h). array_objs h'' ! a = array_objs h ! a"
  shows "shape_value h'' (indices A) = shape_value h (indices A) \<and>
         tensor_shape h'' A = tensor_shape h A"
  using assms by (simp add: owns_def shape_value_def tensor_shape_def index_value_def)

text \<open>
  Claim C6. For a tensor \<open>A\<close> that owns its indices, \<open>sparse_shape\<close> returns a list that
  denotes the same legs as \<open>A.indices\<close> and shares no object with it: the list and its
  Index objects are new. Whatever one mutation through the returned list does (assigning an
  entry, assigning \<open>flow\<close> or \<open>charges\<close> of an entry, writing into an entry's charge
  array), \<open>A.indices\<close> holds the same references and denotes the same legs as before, and
  \<open>A.shape\<close> is unchanged.
\<close>

theorem sparse_shape_deep_copy:
  assumes "owns h A" and "sparse_shape h A = (r, h')"
  shows "shape_value h' r = shape_value h (indices A) \<and>
         r \<noteq> indices A \<and> set (list_objs h' ! r) \<inter> set (list_objs h ! indices A) = {} \<and>
         (\<forall>m. list_objs (mutate h' r m) ! indices A = list_objs h ! indices A \<and>
              shape_value (mutate h' r m) (indices A) = shape_value h (indices A) \<and>
              tensor_shape (mutate h' r m) A = tensor_shape h A)"
proof -
  let ?ps = "list_objs h ! indices A"
  obtain qs h1 where c: "copy_indices h ?ps = (qs, h1)" by (cases "copy_indices h ?ps")
  from assms(2) c have r: "r = length (list_objs h1)" and h': "h' = h1\<lparr>list_objs := list_objs h1 @ [qs]\<rparr>"
    by (simp_all add: sparse_shape_def)
  have v: "valid_refs h ?ps" and l: "indices A < length (list_objs h)"
    using assms(1) by (simp_all add: owns_def valid_refs_def)
  from copy_indices_fresh[OF c v]
  have g: "grows h h1" and len: "length qs = length ?ps"
    and fr: "\<And>k. k < length ?ps \<Longrightarrow> fresh_copy h h1 (?ps ! k) (qs ! k)"
    by simp_all
  have ll: "list_objs h1 = list_objs h" using g by (simp add: grows_def)
  have rl: "list_objs h' ! r = qs" by (simp add: r h')
  have il: "list_objs h' ! indices A = ?ps" using l by (simp add: h' ll nth_append)
  have copy: "shape_value h' r = shape_value h (indices A)"
  proof -
    have "index_value h' (qs ! k) = index_value h (?ps ! k)" if "k < length ?ps" for k
      using fr[OF that] by (simp add: fresh_copy_def index_value_def h')
    then show ?thesis
      unfolding shape_value_def rl by (simp add: list_eq_iff_nth_eq len)
  qed
  have ne: "r \<noteq> indices A" using l by (simp add: r ll)
  have disj: "set (list_objs h' ! r) \<inter> set ?ps = {}"
  proof -
    have "q \<notin> set ?ps" if "q \<in> set qs" for q
    proof -
      from that obtain k where "k < length qs" "q = qs ! k" by (auto simp: in_set_conv_nth)
      then have "length (index_objs h) \<le> q" using fr[of k] len by (simp add: fresh_copy_def)
      then show ?thesis using v by (auto simp: valid_refs_def)
    qed
    then show ?thesis unfolding rl by auto
  qed
  have frame: "list_objs (mutate h' r m) ! indices A = list_objs h ! indices A \<and>
       shape_value (mutate h' r m) (indices A) = shape_value h (indices A) \<and>
       tensor_shape (mutate h' r m) A = tensor_shape h A" for m
  proof -
    have qi: "\<forall>k < length (list_objs h' ! r). length (index_objs h) \<le> list_objs h' ! r ! k"
      unfolding rl using fr len by (simp add: fresh_copy_def)
    have qa: "\<forall>k < length (list_objs h' ! r).
                length (array_objs h) \<le> charges (index_objs h' ! (list_objs h' ! r ! k))"
      unfolding rl using fr len by (simp add: fresh_copy_def h')
    have 1: "list_objs (mutate h' r m) ! indices A = ?ps"
      using mutate_lists_frame[of "indices A" r h' m] ne il by simp
    have 2: "\<forall>p < length (index_objs h). index_objs (mutate h' r m) ! p = index_objs h ! p"
      using mutate_index_frame[OF _ qi] grows_index[OF g] by (simp add: h')
    have 3: "\<forall>a < length (array_objs h). array_objs (mutate h' r m) ! a = array_objs h ! a"
      using mutate_arrays_frame[OF _ qa] grows_array[OF g] by (simp add: h')
    from shape_value_frame[OF assms(1) 1 2 3] 1 show ?thesis by simp
  qed
  from copy ne disj frame show ?thesis by blast
qed

text \<open>
  The theorem at a tensor with two legs: after \<open>sparse_shape\<close>, writing 7 into the first
  charge array of the copy changes the copy and not the tensor's indices.
\<close>

theorem sparse_shape_deep_copy_witness:
  "owns \<lparr>array_objs = [[0, 1], [1, 1, 0]],
         index_objs = [\<lparr>charges = 0, flow = 1\<rparr>, \<lparr>charges = 1, flow = - 1\<rparr>],
         list_objs = [[0, 1]]\<rparr>
        \<lparr>indices = 0, data = [1 :: int, 2, 3], dtype = ''complex128''\<rparr> \<and>
   sparse_shape \<lparr>array_objs = [[0, 1], [1, 1, 0]],
         index_objs = [\<lparr>charges = 0, flow = 1\<rparr>, \<lparr>charges = 1, flow = - 1\<rparr>],
         list_objs = [[0, 1]]\<rparr>
        \<lparr>indices = 0, data = [1 :: int, 2, 3], dtype = ''complex128''\<rparr> =
     (1, \<lparr>array_objs = [[0, 1], [1, 1, 0], [0, 1], [1, 1, 0]],
          index_objs = [\<lparr>charges = 0, flow = 1\<rparr>, \<lparr>charges = 1, flow = - 1\<rparr>,
                        \<lparr>charges = 2, flow = 1\<rparr>, \<lparr>charges = 3, flow = - 1\<rparr>],
          list_objs = [[0, 1], [2, 3]]\<rparr>) \<and>
   shape_value (mutate \<lparr>array_objs = [[0, 1], [1, 1, 0], [0, 1], [1, 1, 0]],
          index_objs = [\<lparr>charges = 0, flow = 1\<rparr>, \<lparr>charges = 1, flow = - 1\<rparr>,
                        \<lparr>charges = 2, flow = 1\<rparr>, \<lparr>charges = 3, flow = - 1\<rparr>],
          list_objs = [[0, 1], [2, 3]]\<rparr> 1 (SetCharge 0 1 7)) 0 = [([0, 1], 1), ([1, 1, 0], - 1)] \<and>
   shape_value (mutate \<lparr>array_objs = [[0, 1], [1, 1, 0], [0, 1], [1, 1, 0]],
          index_objs = [\<lparr>charges = 0, flow = 1\<rparr>, \<lparr>charges = 1, flow = - 1\<rparr>,
                        \<lparr>charges = 2, flow = 1\<rparr>, \<lparr>charges = 3, flow = - 1\<rparr>],
          list_objs = [[0, 1], [2, 3]]\<rparr> 1 (SetCharge 0 1 7)) 1 = [([0, 7], 1), ([1, 1, 0], - 1)]"
proof -
  let ?h = "\<lparr>array_objs = [[0, 1], [1, 1, 0]],
         index_objs = [\<lparr>charges = 0, flow = 1\<rparr>, \<lparr>charges = 1, flow = - 1\<rparr>],
         list_objs = [[0, 1]]\<rparr>"
  let ?A = "\<lparr>indices = 0, data = [1 :: int, 2, 3], dtype = ''complex128''\<rparr>"
  let ?h' = "\<lparr>array_objs = [[0, 1], [1, 1, 0], [0, 1], [1, 1, 0]],
          index_objs = [\<lparr>charges = 0, flow = 1\<rparr>, \<lparr>charges = 1, flow = - 1\<rparr>,
                        \<lparr>charges = 2, flow = 1\<rparr>, \<lparr>charges = 3, flow = - 1\<rparr>],
          list_objs = [[0, 1], [2, 3]]\<rparr>"
  have o: "owns ?h ?A" by (simp add: owns_def)
  have s: "sparse_shape ?h ?A = (1, ?h')"
    by (simp add: sparse_shape_def copy_index_def Let_def)
  from sparse_shape_deep_copy[OF o s]
  have "shape_value (mutate ?h' 1 (SetCharge 0 1 7)) (indices ?A) = shape_value ?h (indices ?A)"
    by blast
  then have kept: "shape_value (mutate ?h' 1 (SetCharge 0 1 7)) 0 = [([0, 1], 1), ([1, 1, 0], - 1)]"
    by (simp add: shape_value_def index_value_def)
  have changed: "shape_value (mutate ?h' 1 (SetCharge 0 1 7)) 1 = [([0, 7], 1), ([1, 1, 0], - 1)]"
    by (simp add: shape_value_def index_value_def)
  from o s kept changed show ?thesis by blast
qed

end
